theory Spec2Isabelle
  imports Main "HOL-Library.Word" "HOL-Library.Sublist"
begin

unbundle bit_operations_syntax

section \<open>Values of the language\<close>

text \<open>
  A JavaScript string is a sequence of 16-bit UTF-16 code units; a Node \<open>Buffer\<close> is a
  sequence of bytes. \<open>js\<close> turns an ASCII literal into a JavaScript string. Every value the
  code throws is an \<open>Error\<close> object, kept here with its message, which is all the code
  inspects (\<open>error.message.includes\<close>). A call that may throw returns \<open>error + 'a\<close>,
  with \<open>Inl\<close> the thrown error.
\<close>

type_synonym js_string = "16 word list"
type_synonym Buffer = "8 word list"

definition js :: "string \<Rightarrow> js_string" where
  "js s = map (\<lambda>c. of_nat (of_char c)) s"

datatype error = Error (message: js_string)

text \<open>A line of the console: its text and, for \<open>console.error\<close>, the error printed with it.\<close>

datatype log_entry = Console_Log js_string | Console_Error js_string error

section \<open>Connection profiles (types/ssh.ts)\<close>

text \<open>
  \<open>SSHConnectionParams\<close>, \<open>Omit<ConnectionProfile, 'id'>\<close> and \<open>ConnectionProfile\<close>.
  An optional field is an \<open>option\<close>. The port is a JavaScript number that the code only
  stores and passes on; it is an integer here. The field \<open>id\<close> is called \<open>profile_id\<close>.
\<close>

record SSHConnectionParams =
  host :: js_string
  port :: int
  username :: js_string
  password :: "js_string option"
  privateKey :: "js_string option"
  passphrase :: "js_string option"

record ProfileData = SSHConnectionParams +
  name :: js_string

record ConnectionProfile = ProfileData +
  profile_id :: js_string

section \<open>The profile store\<close>

subsection \<open>localStorage and JSON\<close>

text \<open>
  A text kept under \<open>PROFILES_STORAGE_KEY\<close> is identified with whether it is the empty
  string and with what \<open>JSON.parse\<close> makes of it: the error it throws, a JSON value that
  is not an array, or an array of profiles. \<open>JSON.stringify\<close> of a profile list is a
  non-empty text that parses to that array, so parsing a stringified list gives the list
  back. A stored array with an element that is not a profile is outside the model.
  \<open>localStorage\<close> holds the item (\<open>None\<close> when \<open>getItem\<close> returns \<open>null\<close>), may throw
  on \<open>getItem\<close>, and refuses some values on \<open>setItem\<close> (a full quota), throwing
  \<open>setItem_error\<close>. The console collects what \<open>console.error\<close> prints.
\<close>

datatype json = Json_Array "ConnectionProfile list" | Json_Other

datatype json_text = Json_Text (is_empty: bool) (parsed: "error + json")

record browser =
  item :: "json_text option"
  getItem_error :: "error option"
  setItem_accepts :: "json_text \<Rightarrow> bool"
  setItem_error :: error
  console :: "log_entry list"

definition JSON_parse :: "json_text \<Rightarrow> error + json" where
  "JSON_parse t = parsed t"

definition JSON_stringify :: "ConnectionProfile list \<Rightarrow> json_text" where
  "JSON_stringify profiles = Json_Text False (Inr (Json_Array profiles))"

definition getItem :: "browser \<Rightarrow> error + json_text option" where
  "getItem w = (case getItem_error w of Some e \<Rightarrow> Inl e | None \<Rightarrow> Inr (item w))"

definition setItem :: "browser \<Rightarrow> json_text \<Rightarrow> error + browser" where
  "setItem w t = (if setItem_accepts w t then Inr (w\<lparr>item := Some t\<rparr>)
                  else Inl (setItem_error w))"

definition console_error :: "js_string \<Rightarrow> error \<Rightarrow> browser \<Rightarrow> browser" where
  "console_error msg e w = w\<lparr>console := console w @ [Console_Error msg e]\<rparr>"

subsection \<open>generateId\<close>








subsection \<open>getProfiles, saveProfiles, addProfile, updateProfile, deleteProfile\<close>

definition getProfiles :: "browser \<Rightarrow> ConnectionProfile list \<times> browser" where
  "getProfiles w = (case getItem w of
       Inl e \<Rightarrow> ([], console_error (js ''Error retrieving profiles from localStorage:'') e w)
     | Inr None \<Rightarrow> ([], w)
     | Inr (Some profilesJson) \<Rightarrow>
         (if \<not> is_empty profilesJson then
            (case JSON_parse profilesJson of
               Inl e \<Rightarrow> ([], console_error (js ''Error retrieving profiles from localStorage:'') e w)
             | Inr (Json_Array profiles) \<Rightarrow> (profiles, w)
             | Inr Json_Other \<Rightarrow> ([], w))
          else ([], w)))"

definition saveProfiles :: "ConnectionProfile list \<Rightarrow> browser \<Rightarrow> error + browser" where
  "saveProfiles profiles w = (case setItem w (JSON_stringify profiles) of
       Inr w' \<Rightarrow> Inr w'
     | Inl e \<Rightarrow> Inr (console_error (js ''Error saving profiles to localStorage:'') e w))"


fun findIndex :: "('a \<Rightarrow> bool) \<Rightarrow> 'a list \<Rightarrow> nat option" where
  "findIndex P [] = None"
| "findIndex P (x # xs) =
     (if P x then Some 0 else map_option Suc (findIndex P xs))"

definition updateProfile :: "ConnectionProfile \<Rightarrow> browser \<Rightarrow> error + bool \<times> browser" where
  "updateProfile updatedProfile w =
     (let (profiles, w1) = getProfiles w
      in case findIndex (\<lambda>p. profile_id p = profile_id updatedProfile) profiles of
           Some profileIndex \<Rightarrow>
             (case saveProfiles (profiles[profileIndex := updatedProfile]) w1 of
                Inl e \<Rightarrow> Inl e
              | Inr w2 \<Rightarrow> Inr (True, w2))
         | None \<Rightarrow> Inr (False, w1))"

definition deleteProfile :: "js_string \<Rightarrow> browser \<Rightarrow> error + bool \<times> browser" where
  "deleteProfile profileId w =
     (let (profiles, w1) = getProfiles w;
          initialLength = length profiles;
          updatedProfiles = filter (\<lambda>p. profile_id p \<noteq> profileId) profiles
      in if length updatedProfiles < initialLength then
           (case saveProfiles updatedProfiles w1 of
              Inl e \<Rightarrow> Inl e
            | Inr w2 \<Rightarrow> Inr (True, w2))
         else Inr (False, w1))"

section \<open>The crypto utility\<close>

subsection \<open>Strings and buffers: UTF-8 and hex\<close>

text \<open>
  \<open>cipher.update(text, 'utf8', ...)\<close> and \<open>Buffer.from(string)\<close> write a string as UTF-8:
  a surrogate pair is one code point of four bytes, and a surrogate without its partner is
  written as U+FFFD (bytes EF BF BD).
\<close>

definition is_high_surrogate :: "16 word \<Rightarrow> bool" where
  "is_high_surrogate u \<longleftrightarrow> 0xD800 \<le> unat u \<and> unat u \<le> 0xDBFF"

definition is_low_surrogate :: "16 word \<Rightarrow> bool" where
  "is_low_surrogate u \<longleftrightarrow> 0xDC00 \<le> unat u \<and> unat u \<le> 0xDFFF"

definition surrogate_pair :: "16 word \<Rightarrow> 16 word \<Rightarrow> nat" where
  "surrogate_pair u v = 0x10000 + (unat u - 0xD800) * 0x400 + (unat v - 0xDC00)"

definition utf8_bytes :: "nat \<Rightarrow> Buffer" where
  "utf8_bytes cp =
     (if cp < 0x80 then [of_nat cp]
      else if cp < 0x800 then [of_nat (0xC0 + cp div 64), of_nat (0x80 + cp mod 64)]
      else if cp < 0x10000 then
        [of_nat (0xE0 + cp div 4096), of_nat (0x80 + cp div 64 mod 64),
         of_nat (0x80 + cp mod 64)]
      else
        [of_nat (0xF0 + cp div 262144), of_nat (0x80 + cp div 4096 mod 64),
         of_nat (0x80 + cp div 64 mod 64), of_nat (0x80 + cp mod 64)])"

fun utf8_encode :: "js_string \<Rightarrow> Buffer" where
  "utf8_encode [] = []"
| "utf8_encode [u] =
     (if is_high_surrogate u \<or> is_low_surrogate u then utf8_bytes 0xFFFD
      else utf8_bytes (unat u))"
| "utf8_encode (u # v # vs) =
     (if is_high_surrogate u \<and> is_low_surrogate v then
        utf8_bytes (surrogate_pair u v) @ utf8_encode vs
      else if is_high_surrogate u \<or> is_low_surrogate u then
        utf8_bytes 0xFFFD @ utf8_encode (v # vs)
      else utf8_bytes (unat u) @ utf8_encode (v # vs))"

text \<open>
  \<open>buffer.toString('utf8')\<close> decodes UTF-8 as the WHATWG decoder does: the state is the
  code point built so far, the number of continuation bytes still needed, and the bounds
  for the next byte; an ill-formed sequence gives U+FFFD and the offending byte is read
  again as a first byte. A code point above U+FFFF becomes a surrogate pair.
\<close>

function utf8_decoder :: "nat \<Rightarrow> nat \<Rightarrow> nat \<Rightarrow> nat \<Rightarrow> Buffer \<Rightarrow> nat list" where
  "utf8_decoder cp needed lower upper [] = (if needed \<noteq> 0 then [0xFFFD] else [])"
| "utf8_decoder cp needed lower upper (b # bs) =
     (if needed = 0 then
        (if unat b \<le> 0x7F then unat b # utf8_decoder 0 0 0x80 0xBF bs
         else if 0xC2 \<le> unat b \<and> unat b \<le> 0xDF then
           utf8_decoder (unat b mod 32) 1 0x80 0xBF bs
         else if 0xE0 \<le> unat b \<and> unat b \<le> 0xEF then
           utf8_decoder (unat b mod 16) 2
             (if unat b = 0xE0 then 0xA0 else 0x80) (if unat b = 0xED then 0x9F else 0xBF) bs
         else if 0xF0 \<le> unat b \<and> unat b \<le> 0xF4 then
           utf8_decoder (unat b mod 8) 3
             (if unat b = 0xF0 then 0x90 else 0x80) (if unat b = 0xF4 then 0x8F else 0xBF) bs
         else 0xFFFD # utf8_decoder 0 0 0x80 0xBF bs)
      else if \<not> (lower \<le> unat b \<and> unat b \<le> upper) then
        0xFFFD # utf8_decoder 0 0 0x80 0xBF (b # bs)
      else if needed = 1 then
        (cp * 64 + unat b mod 64) # utf8_decoder 0 0 0x80 0xBF bs
      else utf8_decoder (cp * 64 + unat b mod 64) (needed - 1) 0x80 0xBF bs)"
  by pat_completeness auto
termination
  by (relation "measure (\<lambda>(cp, needed, lower, upper, bs).
        2 * length bs + (if needed = 0 then 0 else 1))") auto

declare utf8_decoder.simps [simp del]

definition utf16_units :: "nat \<Rightarrow> js_string" where
  "utf16_units cp =
     (if cp < 0x10000 then [of_nat cp]
      else [of_nat (0xD800 + (cp - 0x10000) div 0x400),
            of_nat (0xDC00 + (cp - 0x10000) mod 0x400)])"

definition utf8_decode :: "Buffer \<Rightarrow> js_string" where
  "utf8_decode bs = concat (map utf16_units (utf8_decoder 0 0 0x80 0xBF bs))"

text \<open>
  \<open>buffer.toString('hex')\<close> writes each byte as two lower-case digits.
  \<open>Buffer.from(string, 'hex')\<close> reads pairs of hex digits of either case and stops at the
  first pair that is not one; a last single character is dropped. Node's decoder keeps
  only the low byte of each code unit before it reads it as a digit, so that U+0130 is
  read as \<open>'0'\<close>.
\<close>

definition hex_digit :: "nat \<Rightarrow> 16 word" where
  "hex_digit d = (if d < 10 then of_nat (48 + d) else of_nat (87 + d))"

definition toString_hex :: "Buffer \<Rightarrow> js_string" where
  "toString_hex bs = concat (map (\<lambda>b. [hex_digit (unat b div 16), hex_digit (unat b mod 16)]) bs)"

definition unhex :: "16 word \<Rightarrow> nat option" where
  "unhex c =
     (let n = unat c mod 256 in
      if 48 \<le> n \<and> n \<le> 57 then Some (n - 48)
      else if 97 \<le> n \<and> n \<le> 102 then Some (n - 87)
      else if 65 \<le> n \<and> n \<le> 70 then Some (n - 55)
      else None)"

fun Buffer_from_hex :: "js_string \<Rightarrow> Buffer" where
  "Buffer_from_hex (a # b # rest) =
     (case (unhex a, unhex b) of
        (Some x, Some y) \<Rightarrow> of_nat (16 * x + y) # Buffer_from_hex rest
      | _ \<Rightarrow> [])"
| "Buffer_from_hex _ = []"

text \<open>\<open>string.split(separator)\<close> for a separator of one code unit; \<open>colon\<close> is \<open>':'\<close>.\<close>

definition colon :: "16 word" where
  "colon = 0x3A"

fun split_on :: "'a \<Rightarrow> 'a list \<Rightarrow> 'a list list" where
  "split_on sep [] = [[]]"
| "split_on sep (c # cs) =
     (if c = sep then [] # split_on sep cs
      else (case split_on sep cs of
              [] \<Rightarrow> [[c]]
            | part # parts \<Rightarrow> (c # part) # parts))"

subsection \<open>The crypto module of Node\<close>

text \<open>
  The primitives of Node's \<open>crypto\<close> module are parameters of the model.
  \<open>pbkdf2Sync password salt iterations keylen digest\<close> is the derived key.
  \<open>cipher algorithm key iv data\<close> is what \<open>createCipheriv(algorithm, key, iv)\<close> followed by
  \<open>update(data)\<close> and \<open>final()\<close> produces, and \<open>decipher\<close> the same for
  \<open>createDecipheriv\<close>; either may throw. \<open>randomBytes\<close> reads the next bytes of a random
  source: an infinite sequence of bytes and the number of bytes read so far.
\<close>

record node_crypto =
  pbkdf2Sync :: "js_string \<Rightarrow> js_string \<Rightarrow> nat \<Rightarrow> nat \<Rightarrow> js_string \<Rightarrow> Buffer"
  cipher :: "js_string \<Rightarrow> Buffer \<Rightarrow> Buffer \<Rightarrow> Buffer \<Rightarrow> error + Buffer"
  decipher :: "js_string \<Rightarrow> Buffer \<Rightarrow> Buffer \<Rightarrow> Buffer \<Rightarrow> error + Buffer"

record random_source =
  entropy :: "nat \<Rightarrow> 8 word"
  consumed :: nat

definition randomBytes :: "nat \<Rightarrow> random_source \<Rightarrow> Buffer \<times> random_source" where
  "randomBytes n r =
     (map (entropy r) [consumed r ..< consumed r + n], r\<lparr>consumed := consumed r + n\<rparr>)"

subsection \<open>generateKeyFromPassword, encrypt, decrypt\<close>

definition ALGORITHM :: js_string where
  "ALGORITHM = js ''aes-256-cbc''"

definition KEY_LENGTH :: nat where
  "KEY_LENGTH = 32"

definition IV_LENGTH :: nat where
  "IV_LENGTH = 16"

definition generateKeyFromPassword :: "node_crypto \<Rightarrow> js_string \<Rightarrow> js_string \<Rightarrow> error + Buffer" where
  "generateKeyFromPassword lib passwd salt =
     (if passwd = [] \<or> salt = [] then
        Inl (Error (js ''Password and salt are required to generate a key.''))
      else Inr (pbkdf2Sync lib passwd salt 100000 KEY_LENGTH (js ''sha512'')))"

text \<open>
  The errors thrown by \<open>encrypt\<close> and \<open>decrypt\<close>, with \<open>${KEY_LENGTH}\<close> and
  \<open>${IV_LENGTH}\<close> of the template literals written out.
\<close>

definition key_length_error :: error where
  "key_length_error = Error (js ''Secret key must be 32 bytes long.'')"

definition encrypt ::
  "node_crypto \<Rightarrow> js_string \<Rightarrow> Buffer \<Rightarrow> random_source \<Rightarrow> (error + js_string) \<times> random_source" where
  "encrypt lib text secretKey r =
     (if length secretKey \<noteq> KEY_LENGTH then (Inl key_length_error, r)
      else
        (let (iv, r') = randomBytes IV_LENGTH r
         in case cipher lib ALGORITHM secretKey iv (utf8_encode text) of
              Inr encrypted \<Rightarrow> (Inr (toString_hex iv @ [colon] @ toString_hex encrypted), r')
            | Inl e \<Rightarrow> (Inl (Error (js ''Encryption process failed.'')), r')))"

definition format_error :: error where
  \<open>format_error = Error (js ''Invalid encrypted data format. Expected "iv:encrypted_data".'')\<close>

definition iv_length_error :: error where
  "iv_length_error = Error (js ''Invalid IV length. Expected 16 bytes.'')"

definition decryption_error :: error where
  "decryption_error = Error (js ''Decryption process failed. Check key or data integrity.'')"

definition string_includes :: "js_string \<Rightarrow> js_string \<Rightarrow> bool" where
  "string_includes s part = sublist part s"

text \<open>The body of the \<open>try\<close> block of \<open>decrypt\<close>, and its \<open>catch\<close> block.\<close>

definition decrypt_try :: "node_crypto \<Rightarrow> js_string \<Rightarrow> Buffer \<Rightarrow> error + js_string" where
  "decrypt_try lib encryptedDataWithIv secretKey =
     (let parts = split_on colon encryptedDataWithIv
      in if length parts \<noteq> 2 then Inl format_error
         else
           (let iv = Buffer_from_hex (parts ! 0);
                encryptedText = Buffer_from_hex (parts ! 1)
            in if length iv \<noteq> IV_LENGTH then Inl iv_length_error
               else (case decipher lib ALGORITHM secretKey iv encryptedText of
                       Inl e \<Rightarrow> Inl e
                     | Inr decrypted \<Rightarrow> Inr (utf8_decode decrypted))))"

definition decrypt_catch :: "error \<Rightarrow> error" where
  "decrypt_catch e =
     (if string_includes (message e) (js ''Invalid IV length'')
         \<or> string_includes (message e) (js ''Invalid encrypted data format'')
      then e else decryption_error)"

definition decrypt :: "node_crypto \<Rightarrow> js_string \<Rightarrow> Buffer \<Rightarrow> error + js_string" where
  "decrypt lib encryptedDataWithIv secretKey =
     (if length secretKey \<noteq> KEY_LENGTH then Inl key_length_error
      else (case decrypt_try lib encryptedDataWithIv secretKey of
              Inl e \<Rightarrow> Inl (decrypt_catch e)
            | Inr text \<Rightarrow> Inr text))"

text \<open>
  The expression \<open>decrypt(encrypt(text, key), key)\<close>, and two calls of \<open>encrypt\<close> one
  after the other on the same text and key. The \<open>console.error\<close> lines of the two
  \<open>catch\<close> blocks are not part of the model of the crypto utility.
\<close>

definition decrypt_encrypt ::
  "node_crypto \<Rightarrow> js_string \<Rightarrow> Buffer \<Rightarrow> random_source \<Rightarrow> error + js_string" where
  "decrypt_encrypt lib text secretKey r =
     (case fst (encrypt lib text secretKey r) of
        Inl e \<Rightarrow> Inl e
      | Inr envelope \<Rightarrow> decrypt lib envelope secretKey)"


text \<open>
  A string is well formed when every surrogate is part of a pair
  (\<open>String.prototype.isWellFormed\<close>); a scalar value is a code point that is no surrogate.
\<close>

fun isWellFormed :: "js_string \<Rightarrow> bool" where
  "isWellFormed [] = True"
| "isWellFormed [u] = (\<not> is_high_surrogate u \<and> \<not> is_low_surrogate u)"
| "isWellFormed (u # v # vs) =
     (if is_high_surrogate u then is_low_surrogate v \<and> isWellFormed vs
      else \<not> is_low_surrogate u \<and> isWellFormed (v # vs))"

text \<open>
  \<open>String.prototype.toWellFormed\<close>: the string with every surrogate that is not part of a
  pair replaced by U+FFFD.
\<close>

fun toWellFormed :: "js_string \<Rightarrow> js_string" where
  "toWellFormed [] = []"
| "toWellFormed [u] = (if is_high_surrogate u \<or> is_low_surrogate u then [0xFFFD] else [u])"
| "toWellFormed (u # v # vs) =
     (if is_high_surrogate u \<and> is_low_surrogate v then u # v # toWellFormed vs
      else if is_high_surrogate u \<or> is_low_surrogate u then 0xFFFD # toWellFormed (v # vs)
      else u # toWellFormed (v # vs))"

definition scalar_value :: "nat \<Rightarrow> bool" where
  "scalar_value cp \<longleftrightarrow> cp < 0x110000 \<and> \<not> (0xD800 \<le> cp \<and> cp \<le> 0xDFFF)"

section \<open>The SSH service (services/sshService.ts)\<close>

text \<open>
  \<open>connect\<close> builds a configuration and hands it to \<open>conn.connect\<close> of the ssh2 library.
  What the library does with a configuration is a parameter: it throws synchronously,
  before any network I/O, or it starts connecting and the client emits \<open>ready\<close>,
  \<open>error\<close> and \<open>close\<close> events in some order. The handlers registered by \<open>connect\<close>
  run on these events; a promise settles once, so \<open>resolve\<close> and \<open>reject\<close> change a
  pending promise only.
\<close>

record ssh2_config =
  cfg_host :: js_string
  cfg_port :: int
  cfg_username :: js_string
  cfg_password :: "js_string option"
  cfg_privateKey :: "Buffer option"
  cfg_passphrase :: "js_string option"

datatype client_event = Ready | Error_Event error | Close

datatype connect_call = Throws error | Connecting "client_event list"

type_synonym ssh2 = "ssh2_config \<Rightarrow> connect_call"

datatype promise = Pending | Resolved | Rejected error

record connection =
  settled :: promise
  network_io :: bool
  end_called :: bool
  printed :: "log_entry list"

definition resolve :: "connection \<Rightarrow> connection" where
  "resolve c = (if settled c = Pending then c\<lparr>settled := Resolved\<rparr> else c)"

definition reject :: "error \<Rightarrow> connection \<Rightarrow> connection" where
  "reject e c = (if settled c = Pending then c\<lparr>settled := Rejected e\<rparr> else c)"

fun on_event :: "js_string \<Rightarrow> client_event \<Rightarrow> connection \<Rightarrow> connection" where
  "on_event h Ready c =
     c\<lparr>printed := printed c @ [Console_Log (js ''SSH connection established to '' @ h)],
       end_called := True\<rparr>"
| "on_event h (Error_Event err) c =
     reject err (c\<lparr>printed := printed c @ [Console_Error (js ''SSH connection error: '') err]\<rparr>)"
| "on_event h Close c =
     resolve (c\<lparr>printed := printed c @ [Console_Log (js ''SSH connection closed'')]\<rparr>)"

definition config :: "SSHConnectionParams \<Rightarrow> ssh2_config" where
  "config params =
     \<lparr>cfg_host = host params, cfg_port = port params, cfg_username = username params,
      cfg_password = password params,
      cfg_privateKey = (case privateKey params of
                          None \<Rightarrow> None
                        | Some k \<Rightarrow> if k = [] then None else Some (utf8_encode k)),
      cfg_passphrase = passphrase params\<rparr>"

definition connect :: "ssh2 \<Rightarrow> SSHConnectionParams \<Rightarrow> connection" where
  "connect conn_connect params =
     (let conn = \<lparr>settled = Pending, network_io = False, end_called = False, printed = []\<rparr>
      in case conn_connect (config params) of
           Throws e \<Rightarrow>
             reject e (conn\<lparr>printed :=
               [Console_Error (js ''SSH connection failed synchronously: '') e]\<rparr>)
         | Connecting events \<Rightarrow>
             fold (on_event (host params)) events (conn\<lparr>network_io := True\<rparr>))"

section \<open>Instances\<close>

text \<open>
  Concrete data for the instances of the theorems below. \<open>stub_crypto\<close> stands in for
  Node's crypto module: its decipher inverts its cipher and its \<open>pbkdf2Sync\<close> returns
  \<open>keylen\<close> bytes, which is all the theorems ask of the module; it is no cipher to use.
  \<open>failing_crypto\<close> is a module whose cipher and decipher throw.
  \<open>counting_random\<close> yields the bytes 0, 1, 2, ... \<open>full_browser\<close> is a browser whose
  storage quota is used up, \<open>unreadable_browser\<close> one whose \<open>getItem\<close> throws, and
  \<open>corrupt_browser\<close> one whose stored text is no JSON.
  \<open>local_ssh2\<close> is an SSH library that reaches a server for every configuration, as ssh2
  does for an empty host, which it replaces by \<open>localhost\<close>; \<open>strict_ssh2\<close> is one that
  throws on an empty host, and \<open>refused_ssh2\<close> one whose connection is refused.
\<close>

definition first_byte :: "Buffer \<Rightarrow> 8 word" where
  "first_byte bs = (case bs of [] \<Rightarrow> 0 | b # _ \<Rightarrow> b)"

definition xor_bytes :: "Buffer \<Rightarrow> Buffer \<Rightarrow> Buffer \<Rightarrow> Buffer" where
  "xor_bytes key iv data = map (\<lambda>b. b XOR first_byte key XOR first_byte iv) data"

definition stub_crypto :: node_crypto where
  "stub_crypto =
     \<lparr>pbkdf2Sync = (\<lambda>p s c n d. replicate n (of_nat (length p + length s))),
      cipher = (\<lambda>alg key iv data. Inr (xor_bytes key iv data)),
      decipher = (\<lambda>alg key iv data. Inr (xor_bytes key iv data))\<rparr>"



definition example_key :: Buffer where
  "example_key = replicate 32 0x2A"

definition counting_random :: random_source where
  "counting_random = \<lparr>entropy = (\<lambda>i. of_nat i), consumed = 0\<rparr>"

definition example_data :: "string \<Rightarrow> ProfileData" where
  "example_data n =
     \<lparr>host = js ''example.org'', port = 22, username = js ''root'',
      password = Some (js ''hunter2''), privateKey = None, passphrase = None,
      name = js n\<rparr>"

definition example_profile :: "string \<Rightarrow> string \<Rightarrow> ConnectionProfile" where
  "example_profile i n = ProfileData.extend (example_data n) (ConnectionProfile.fields (js i))"

definition quota_error :: error where
  "quota_error = Error (js ''The quota has been exceeded.'')"

definition example_browser :: "ConnectionProfile list \<Rightarrow> browser" where
  "example_browser ps =
     \<lparr>item = Some (JSON_stringify ps), getItem_error = None,
      setItem_accepts = (\<lambda>t. True), setItem_error = quota_error, console = []\<rparr>"

definition full_browser :: "ConnectionProfile list \<Rightarrow> browser" where
  "full_browser ps = (example_browser ps)\<lparr>setItem_accepts := (\<lambda>t. False)\<rparr>"







definition empty_host_params :: SSHConnectionParams where
  "empty_host_params =
     \<lparr>host = [], port = 22, username = js ''root'', password = Some (js ''hunter2''),
      privateKey = None, passphrase = None\<rparr>"

definition local_ssh2 :: ssh2 where
  "local_ssh2 cfg = Connecting [Ready, Close]"

definition strict_ssh2 :: ssh2 where
  "strict_ssh2 cfg =
     (if cfg_host cfg = [] then Throws (Error (js ''Invalid host'')) else Connecting [Ready, Close])"



section \<open>Properties of the profile store\<close>

subsection \<open>Reading and searching\<close>

lemma getProfiles_console: "snd (getProfiles w)\<lparr>console := console w\<rparr> = w"
  by (simp add: getProfiles_def console_error_def split: sum.splits option.splits json.splits)

lemma getProfiles_again: "fst (getProfiles (snd (getProfiles w))) = fst (getProfiles w)"
  by (auto simp add: getProfiles_def console_error_def getItem_def
      split: sum.splits option.splits json.splits)

lemma getProfiles_stored:
  "getItem w = Inr (Some (JSON_stringify ps)) \<Longrightarrow> getProfiles w = (ps, w)"
  by (simp add: getProfiles_def JSON_stringify_def JSON_parse_def)

lemma getItem_written:
  "getItem w = Inr t \<Longrightarrow> getItem (w\<lparr>item := Some u\<rparr>) = Inr (Some u)"
  by (simp add: getItem_def split: option.splits)

lemma findIndex_None: "findIndex P xs = None \<longleftrightarrow> (\<forall>x \<in> set xs. \<not> P x)"
  by (induction xs) auto

lemma findIndex_Some:
  "findIndex P xs = Some i \<Longrightarrow> i < length xs \<and> P (xs ! i) \<and> (\<forall>j < i. \<not> P (xs ! j))"
proof (induction xs arbitrary: i)
  case Nil
  then show ?case by simp
next
  case (Cons x xs)
  show ?case
  proof (cases "P x")
    case True
    with Cons.prems show ?thesis by simp
  next
    case False
    with Cons.prems obtain k where k: "findIndex P xs = Some k" "i = Suc k"
      by auto
    from Cons.IH [OF k(1)] False k(2) show ?thesis
      by (auto simp: nth_Cons split: nat.splits)
  qed
qed


subsection \<open>The instances\<close>

lemma getItem_example_browser: "getItem (example_browser ps) = Inr (Some (JSON_stringify ps))"
  by (simp add: example_browser_def getItem_def)

lemma getItem_full_browser: "getItem (full_browser ps) = Inr (Some (JSON_stringify ps))"
  by (simp add: full_browser_def example_browser_def getItem_def)

lemma getProfiles_example_browser: "getProfiles (example_browser ps) = (ps, example_browser ps)"
  by (rule getProfiles_stored [OF getItem_example_browser])

lemma getProfiles_full_browser: "getProfiles (full_browser ps) = (ps, full_browser ps)"
  by (rule getProfiles_stored [OF getItem_full_browser])

lemma getProfiles_logged:
  "fst (getProfiles (console_error msg e w)) = fst (getProfiles w)"
  by (simp add: getProfiles_def getItem_def console_error_def
      split: sum.splits option.splits json.splits)

lemma profile_id_example_profile: "profile_id (example_profile i n) = js i"
  by (simp add: example_profile_def ProfileData.extend_def ConnectionProfile.fields_def
      ProfileData.defs example_data_def)

lemma js_a_b: "js ''a'' \<noteq> js ''b''"
  by (simp add: js_def)


subsection \<open>updateProfile and deleteProfile on an id that is not stored\<close>

text \<open>
  Claim C7. When no stored record has the given id, \<open>updateProfile\<close> returns \<open>false\<close> and
  \<open>deleteProfile\<close> returns \<open>false\<close>, and each leaves the browser as it was, up to what
  reading the profiles printed on the console: the stored item and the profiles read
  from it are unchanged.
\<close>

theorem missing_id_leaves_store:
  assumes "\<forall>p \<in> set (fst (getProfiles w)). profile_id p \<noteq> profileId"
    and "profile_id updatedProfile = profileId"
  shows "(\<exists>w'. updateProfile updatedProfile w = Inr (False, w')
            \<and> w'\<lparr>console := console w\<rparr> = w
            \<and> fst (getProfiles w') = fst (getProfiles w))
       \<and> (\<exists>w'. deleteProfile profileId w = Inr (False, w')
            \<and> w'\<lparr>console := console w\<rparr> = w
            \<and> fst (getProfiles w') = fst (getProfiles w))"
proof -
  obtain ps w1 where g: "getProfiles w = (ps, w1)" by (cases "getProfiles w")
  have w1: "w1\<lparr>console := console w\<rparr> = w" "fst (getProfiles w1) = ps"
    using getProfiles_console [of w] getProfiles_again [of w] g by simp_all
  from assms g have none: "findIndex (\<lambda>p. profile_id p = profile_id updatedProfile) ps = None"
    by (simp add: findIndex_None)
  from assms g have "filter (\<lambda>p. profile_id p \<noteq> profileId) ps = ps"
    by simp
  then have d: "deleteProfile profileId w = Inr (False, w1)"
    by (simp add: deleteProfile_def g)
  have u: "updateProfile updatedProfile w = Inr (False, w1)"
    by (simp add: updateProfile_def g none)
  show ?thesis using u d w1 g by simp
qed

text \<open>An instance: a store holding the profile \<open>a\<close>, asked for the id \<open>b\<close>.\<close>

theorem missing_id_leaves_store_witness:
  "js ''b'' \<notin> profile_id ` set (fst (getProfiles (example_browser [example_profile ''a'' ''A''])))
   \<and> profile_id (example_profile ''b'' ''B'') = js ''b''
   \<and> (\<exists>w'. updateProfile (example_profile ''b'' ''B'')
              (example_browser [example_profile ''a'' ''A'']) = Inr (False, w')
          \<and> fst (getProfiles w') = [example_profile ''a'' ''A''])
   \<and> (\<exists>w'. deleteProfile (js ''b'') (example_browser [example_profile ''a'' ''A''])
              = Inr (False, w')
          \<and> fst (getProfiles w') = [example_profile ''a'' ''A''])"
proof -
  let ?w = "example_browser [example_profile ''a'' ''A'']"
  have h1: "\<forall>p \<in> set (fst (getProfiles ?w)). profile_id p \<noteq> js ''b''"
    by (simp add: getProfiles_example_browser profile_id_example_profile js_a_b)
  have h2: "profile_id (example_profile ''b'' ''B'') = js ''b''"
    by (rule profile_id_example_profile)
  from missing_id_leaves_store [OF h1 h2]
  have "(\<exists>w'. updateProfile (example_profile ''b'' ''B'') ?w = Inr (False, w')
          \<and> fst (getProfiles w') = [example_profile ''a'' ''A''])
      \<and> (\<exists>w'. deleteProfile (js ''b'') ?w = Inr (False, w')
          \<and> fst (getProfiles w') = [example_profile ''a'' ''A''])"
    unfolding getProfiles_example_browser fst_conv by blast
  moreover have "js ''b'' \<notin> profile_id ` set (fst (getProfiles ?w))"
    using h1 by auto
  ultimately show ?thesis using h2 by blast
qed


subsection \<open>updateProfile on a stored id\<close>

text \<open>
  Claim C10, as stated, fails: the stored collection is replaced only when the store
  takes the write. With the quota used up \<open>updateProfile\<close> finds the record and the
  collection read afterwards still holds the old one.
\<close>

theorem updateProfile_full_store:
  "updateProfile (example_profile ''a'' ''B'') (full_browser [example_profile ''a'' ''A''])
   = Inr (True, console_error (js ''Error saving profiles to localStorage:'') quota_error
                  (full_browser [example_profile ''a'' ''A'']))
   \<and> fst (getProfiles (console_error (js ''Error saving profiles to localStorage:'') quota_error
                          (full_browser [example_profile ''a'' ''A''])))
     = [example_profile ''a'' ''A'']"
proof -
  have "setItem (full_browser [example_profile ''a'' ''A''])
          (JSON_stringify [example_profile ''a'' ''B'']) = Inl quota_error"
    by (simp add: setItem_def full_browser_def example_browser_def)
  then show ?thesis
    by (simp add: updateProfile_def getProfiles_full_browser profile_id_example_profile
        saveProfiles_def getProfiles_logged)
qed

text \<open>
  Claim C10, amended. For every stored profile collection and every profile whose id
  matches a stored record, when the store accepts the write of the updated collection,
  \<open>updateProfile\<close> returns \<open>true\<close> and the collection stored afterwards is the former one
  with the first record of that id replaced by the supplied profile: the length is the
  same and every other position holds the record it held before.
\<close>

theorem updateProfile_replaces_match:
  assumes stored: "getItem w = Inr (Some (JSON_stringify ps))"
    and match: "\<exists>p \<in> set ps. profile_id p = profile_id updatedProfile"
    and accepts: "\<And>i. findIndex (\<lambda>p. profile_id p = profile_id updatedProfile) ps = Some i \<Longrightarrow>
            setItem_accepts w (JSON_stringify (ps[i := updatedProfile]))"
  shows "\<exists>i w'. updateProfile updatedProfile w = Inr (True, w')
           \<and> i < length ps
           \<and> profile_id (ps ! i) = profile_id updatedProfile
           \<and> (\<forall>j < i. profile_id (ps ! j) \<noteq> profile_id updatedProfile)
           \<and> getItem w' = Inr (Some (JSON_stringify (ps[i := updatedProfile])))
           \<and> fst (getProfiles w') = ps[i := updatedProfile]
           \<and> length (fst (getProfiles w')) = length ps
           \<and> fst (getProfiles w') ! i = updatedProfile
           \<and> (\<forall>j < length ps. j \<noteq> i \<longrightarrow> fst (getProfiles w') ! j = ps ! j)"
proof -
  have g: "getProfiles w = (ps, w)" by (rule getProfiles_stored [OF stored])
  from match have "findIndex (\<lambda>p. profile_id p = profile_id updatedProfile) ps \<noteq> None"
    by (simp add: findIndex_None)
  then obtain i where i: "findIndex (\<lambda>p. profile_id p = profile_id updatedProfile) ps = Some i"
    by auto
  from findIndex_Some [OF i]
  have props: "i < length ps" "profile_id (ps ! i) = profile_id updatedProfile"
    "\<forall>j < i. profile_id (ps ! j) \<noteq> profile_id updatedProfile" by simp_all
  let ?w' = "w\<lparr>item := Some (JSON_stringify (ps[i := updatedProfile]))\<rparr>"
  have upd: "updateProfile updatedProfile w = Inr (True, ?w')"
    by (simp add: updateProfile_def g i saveProfiles_def setItem_def accepts [OF i])
  have item: "getItem ?w' = Inr (Some (JSON_stringify (ps[i := updatedProfile])))"
    by (rule getItem_written [OF stored])
  then have after: "fst (getProfiles ?w') = ps[i := updatedProfile]"
    by (simp add: getProfiles_stored)
  show ?thesis
    using upd item after props by (intro exI [of _ i] exI [of _ ?w']) simp
qed

text \<open>An instance: the second of two stored profiles is renamed.\<close>

theorem updateProfile_replaces_match_witness:
  "getItem (example_browser [example_profile ''a'' ''A'', example_profile ''b'' ''B''])
     = Inr (Some (JSON_stringify [example_profile ''a'' ''A'', example_profile ''b'' ''B'']))
   \<and> (\<exists>p \<in> set [example_profile ''a'' ''A'', example_profile ''b'' ''B''].
         profile_id p = profile_id (example_profile ''b'' ''renamed''))
   \<and> (\<forall>t. setItem_accepts
          (example_browser [example_profile ''a'' ''A'', example_profile ''b'' ''B'']) t)
   \<and> (\<exists>w'. updateProfile (example_profile ''b'' ''renamed'')
              (example_browser [example_profile ''a'' ''A'', example_profile ''b'' ''B''])
            = Inr (True, w')
          \<and> fst (getProfiles w') = [example_profile ''a'' ''A'', example_profile ''b'' ''renamed''])"
proof -
  let ?ps = "[example_profile ''a'' ''A'', example_profile ''b'' ''B'']"
  let ?w = "example_browser ?ps"
  let ?u = "example_profile ''b'' ''renamed''"
  have h1: "getItem ?w = Inr (Some (JSON_stringify ?ps))"
    by (rule getItem_example_browser)
  have h2: "\<exists>p \<in> set ?ps. profile_id p = profile_id ?u"
    by (simp add: profile_id_example_profile)
  have h3: "setItem_accepts ?w t" for t
    by (simp add: example_browser_def)
  from updateProfile_replaces_match [of ?w ?ps ?u, OF h1 h2 h3]
  obtain i w' where r: "updateProfile ?u ?w = Inr (True, w')" "i < length ?ps"
    "profile_id (?ps ! i) = profile_id ?u" "fst (getProfiles w') = ?ps[i := ?u]"
    by blast
  from r(2,3) have "i = 1"
    by (cases i) (simp_all add: profile_id_example_profile js_a_b)
  with r(1,4) have "updateProfile ?u ?w = Inr (True, w')
      \<and> fst (getProfiles w') = [example_profile ''a'' ''A'', ?u]"
    by simp
  with h1 h2 h3 show ?thesis by blast
qed

subsection \<open>addProfile\<close>




section \<open>Properties of the crypto utility\<close>

subsection \<open>Hex and split\<close>

lemma unat_hex_digit: "d < 16 \<Longrightarrow> unat (hex_digit d) = (if d < 10 then 48 + d else 87 + d)"
  unfolding hex_digit_def by (simp add: unat_of_nat del: of_nat_add)

lemma unhex_hex_digit: "d < 16 \<Longrightarrow> unhex (hex_digit d) = Some d"
  by (simp add: unhex_def unat_hex_digit Let_def)

lemma unhex_low_byte: "unhex 0x0130 = Some 0" "unhex 0x0141 = Some 10" "unhex 0x3A = None"
  by (simp_all add: unhex_def)

lemma Buffer_from_hex_low_byte: "Buffer_from_hex [0x0130, 0x0131, 0x0141, 0x0146] = [0x01, 0xAF]"
  by (simp add: unhex_def)

lemma hex_digit_not_colon: "d < 16 \<Longrightarrow> hex_digit d \<noteq> colon"
proof
  assume d: "d < 16" and "hex_digit d = colon"
  then have "unat (hex_digit d) = unat colon" by simp
  with d show False
    by (simp add: unat_hex_digit colon_def split: if_splits)
qed

lemma nibbles: "unat (b :: 8 word) div 16 < 16" "unat b mod 16 < 16"
  using unsigned_less [of b, where 'a = nat] by simp_all

lemma nibbles_not_colon:
  "colon \<noteq> hex_digit (unat (b :: 8 word) div 16)" "colon \<noteq> hex_digit (unat b mod 16)"
  using hex_digit_not_colon [of "unat b div 16"] hex_digit_not_colon [of "unat b mod 16"]
    nibbles [of b] by auto

lemma Buffer_from_hex_toString_hex: "Buffer_from_hex (toString_hex bs) = bs"
  by (induction bs) (simp_all add: toString_hex_def unhex_hex_digit nibbles)

lemma toString_hex_no_colon: "colon \<notin> set (toString_hex bs)"
  by (induction bs) (simp_all add: toString_hex_def nibbles_not_colon)



lemma split_on_absent: "sep \<notin> set xs \<Longrightarrow> split_on sep xs = [xs]"
  by (induction xs) auto

lemma split_on_first: "sep \<notin> set xs \<Longrightarrow> split_on sep (xs @ sep # ys) = xs # split_on sep ys"
  by (induction xs) auto

lemma split_envelope:
  "split_on colon (toString_hex iv @ [colon] @ toString_hex ct) = [toString_hex iv, toString_hex ct]"
  by (simp add: split_on_first split_on_absent toString_hex_no_colon)

subsection \<open>The catch block of decrypt\<close>

lemma decrypt_catch_format_error: "decrypt_catch format_error = format_error"
  by (simp add: decrypt_catch_def format_error_def string_includes_def js_def sublist_code)

lemma decrypt_catch_iv_length_error: "decrypt_catch iv_length_error = iv_length_error"
  by (simp add: decrypt_catch_def iv_length_error_def string_includes_def js_def sublist_code)

subsection \<open>The instances\<close>

lemma length_example_key: "length example_key = 32"
  by (simp add: example_key_def)

lemma xor_bytes_twice: "xor_bytes key iv (xor_bytes key iv data) = data"
  by (induction data) (simp_all add: xor_bytes_def xor.assoc)

lemma stub_crypto_inverts:
  "\<exists>c. cipher stub_crypto alg key iv data = Inr c \<and> decipher stub_crypto alg key iv c = Inr data"
  by (simp add: stub_crypto_def xor_bytes_twice)

subsection \<open>Keys of the wrong length\<close>

text \<open>
  Claim C3. With a key whose length is not 32 bytes, \<open>encrypt\<close> and \<open>decrypt\<close> both throw
  the error \<open>Secret key must be 32 bytes long.\<close>, whatever their other argument; \<open>encrypt\<close>
  has then drawn no random bytes.
\<close>

theorem key_length_rejected:
  assumes "length secretKey \<noteq> 32"
  shows "encrypt lib text secretKey r = (Inl key_length_error, r)
       \<and> decrypt lib encryptedDataWithIv secretKey = Inl key_length_error"
  using assms by (simp add: encrypt_def decrypt_def KEY_LENGTH_def)

text \<open>An instance: a key of 31 bytes.\<close>

theorem key_length_rejected_witness:
  "length (replicate 31 (0x2A :: 8 word)) \<noteq> 32
   \<and> encrypt stub_crypto (js ''secret'') (replicate 31 0x2A) counting_random
     = (Inl key_length_error, counting_random)
   \<and> decrypt stub_crypto (js ''00:00'') (replicate 31 0x2A) = Inl key_length_error"
proof -
  have h: "length (replicate 31 (0x2A :: 8 word)) \<noteq> 32" by simp
  from key_length_rejected [OF h] h show ?thesis by blast
qed

subsection \<open>Malformed envelopes\<close>

text \<open>
  Claim C4. With a key of 32 bytes, \<open>decrypt\<close> throws the error \<open>Invalid encrypted data
  format\<close> when splitting the envelope at \<open>':'\<close> does not give exactly two segments, and
  the error \<open>Invalid IV length\<close> when it gives two and the first, read as hex, is not 16
  bytes long. Both pass through the catch block unchanged.
\<close>

theorem malformed_envelope_rejected:
  assumes "length secretKey = 32"
  shows "(length (split_on colon envelope) \<noteq> 2 \<longrightarrow>
            decrypt lib envelope secretKey = Inl format_error)
       \<and> (length (split_on colon envelope) = 2
            \<and> length (Buffer_from_hex (split_on colon envelope ! 0)) \<noteq> 16 \<longrightarrow>
            decrypt lib envelope secretKey = Inl iv_length_error)"
  using assms
  by (simp add: decrypt_def decrypt_try_def KEY_LENGTH_def IV_LENGTH_def Let_def
      decrypt_catch_format_error decrypt_catch_iv_length_error)

text \<open>An instance: an envelope of three segments, and one whose IV has two bytes.\<close>

theorem malformed_envelope_rejected_witness:
  "length example_key = 32
   \<and> length (split_on colon (js ''00:11:22'')) \<noteq> 2
   \<and> decrypt stub_crypto (js ''00:11:22'') example_key = Inl format_error
   \<and> length (split_on colon (js ''0011:22'')) = 2
   \<and> length (Buffer_from_hex (split_on colon (js ''0011:22'') ! 0)) \<noteq> 16
   \<and> decrypt stub_crypto (js ''0011:22'') example_key = Inl iv_length_error"
proof -
  have s1: "split_on colon (js ''00:11:22'') = [js ''00'', js ''11'', js ''22'']"
    by (simp add: js_def colon_def)
  have s2: "split_on colon (js ''0011:22'') = [js ''0011'', js ''22'']"
    by (simp add: js_def colon_def)
  have h1: "length (split_on colon (js ''00:11:22'')) \<noteq> 2"
    by (simp add: s1)
  have h2: "length (split_on colon (js ''0011:22'')) = 2"
    by (simp add: s2)
  have "Buffer_from_hex (js ''0011'') = [0x00, 0x11]"
    by (simp add: js_def unhex_def)
  then have h3: "length (Buffer_from_hex (split_on colon (js ''0011:22'') ! 0)) \<noteq> 16"
    by (simp add: s2)
  from malformed_envelope_rejected [OF length_example_key, of "js ''00:11:22''" stub_crypto]
    malformed_envelope_rejected [OF length_example_key, of "js ''0011:22''" stub_crypto]
    h1 h2 h3 length_example_key
  show ?thesis by blast
qed

subsection \<open>Key derivation\<close>

text \<open>
  Claim C5. For a password and a salt that are not empty, \<open>generateKeyFromPassword\<close>
  returns a key, the key is 32 bytes long (given that \<open>pbkdf2Sync\<close> returns \<open>keylen\<close>
  bytes), and every call with these arguments returns this same key: the function
  reads no clock and draws no random bytes.
\<close>

theorem generateKeyFromPassword_deterministic:
  assumes "passwd \<noteq> []" and "salt \<noteq> []"
    and "\<And>p s c n d. length (pbkdf2Sync lib p s c n d) = n"
  shows "\<exists>k. generateKeyFromPassword lib passwd salt = Inr k \<and> length k = 32
            \<and> (\<forall>k'. generateKeyFromPassword lib passwd salt = Inr k' \<longrightarrow> k' = k)"
  using assms by (simp add: generateKeyFromPassword_def KEY_LENGTH_def)

text \<open>An instance: the password \<open>hunter2\<close> and the salt \<open>a1b2\<close>.\<close>

theorem generateKeyFromPassword_deterministic_witness:
  "js ''hunter2'' \<noteq> [] \<and> js ''a1b2'' \<noteq> []
   \<and> (\<forall>p s c n d. length (pbkdf2Sync stub_crypto p s c n d) = n)
   \<and> (\<exists>k. generateKeyFromPassword stub_crypto (js ''hunter2'') (js ''a1b2'') = Inr k
          \<and> length k = 32)"
proof -
  have h1: "js ''hunter2'' \<noteq> []" and h2: "js ''a1b2'' \<noteq> []"
    by (simp_all add: js_def)
  have h3: "length (pbkdf2Sync stub_crypto p s c n d) = n" for p s c n d
    by (simp add: stub_crypto_def)
  from generateKeyFromPassword_deterministic [of "js ''hunter2''" "js ''a1b2''" stub_crypto,
      OF h1 h2 h3] h1 h2 h3
  show ?thesis by blast
qed


subsection \<open>UTF-8: decoding what was encoded\<close>

text \<open>
  Decoding the UTF-8 encoding of a string gives the string with its unpaired surrogates
  replaced: the decoder reads back each scalar value from the bytes written for it.
  First the arithmetic of the lead and continuation bytes, then one lemma for each
  length of a sequence.
\<close>

lemma mod_shift: "x < m \<Longrightarrow> (k * m + x) mod m = (x::nat)"
  by simp

lemma lead2_mod: "x < 32 \<Longrightarrow> (192 + x) mod 32 = (x::nat)"
  using mod_shift [of x 32 6] by simp

lemma lead3_mod: "x < 16 \<Longrightarrow> (224 + x) mod 16 = (x::nat)"
  using mod_shift [of x 16 14] by simp

lemma lead4_mod: "x < 8 \<Longrightarrow> (240 + x) mod 8 = (x::nat)"
  using mod_shift [of x 8 30] by simp

lemma continuation_mod: "(128 + x mod 64) mod 64 = (x::nat) mod 64"
  using mod_shift [of "x mod 64" 64 2] by simp

lemma below_surrogates_mod: "832 \<le> y \<Longrightarrow> y < 864 \<Longrightarrow> (y::nat) mod 64 < 32"
  using mod_shift [of "y - 832" 64 13] by simp

lemma top_plane_mod: "256 \<le> y \<Longrightarrow> y < 272 \<Longrightarrow> (y::nat) mod 64 < 16"
  using mod_shift [of "y - 256" 64 4] by simp

lemma after_E0: "2048 \<le> cp \<Longrightarrow> cp div 4096 = 0 \<Longrightarrow> 32 \<le> (cp::nat) div 64 mod 64"
  by simp

lemma after_ED: "cp < 55296 \<Longrightarrow> cp div 4096 = 13 \<Longrightarrow> (cp::nat) div 64 mod 64 < 32"
proof (rule below_surrogates_mod)
  assume a: "cp < 55296" "cp div 4096 = 13"
  from a(2) have "13 \<le> cp div 4096" by simp
  then have "53248 \<le> cp" by simp
  then show "832 \<le> cp div 64" by simp
  from a(1) show "cp div 64 < 864" by simp
qed

lemma after_F0: "65536 \<le> cp \<Longrightarrow> cp div 262144 = 0 \<Longrightarrow> 16 \<le> (cp::nat) div 4096 mod 64"
  by simp

lemma after_F4: "cp < 1114112 \<Longrightarrow> cp div 262144 = 4 \<Longrightarrow> (cp::nat) div 4096 mod 64 < 16"
proof (rule top_plane_mod)
  assume a: "cp < 1114112" "cp div 262144 = 4"
  from a(2) have "4 \<le> cp div 262144" by simp
  then have "1048576 \<le> cp" by simp
  then show "256 \<le> cp div 4096" by simp
  from a(1) show "cp div 4096 < 272" by simp
qed

lemma join_three: "((cp::nat) div 4096 * 64 + cp div 64 mod 64) * 64 + cp mod 64 = cp"
proof -
  have "cp div 4096 = cp div 64 div 64" by (simp add: div_mult2_eq)
  then show ?thesis by simp
qed

lemma join_four: "(((cp::nat) div 262144 * 64 + cp div 4096 mod 64) * 64 + cp div 64 mod 64) * 64 + cp mod 64 = cp"
proof -
  have "cp div 4096 = cp div 64 div 64" by (simp add: div_mult2_eq)
  moreover have "cp div 262144 = cp div 64 div 64 div 64" by (simp add: div_mult2_eq)
  ultimately show ?thesis by simp
qed

lemma unat_byte: "n < 256 \<Longrightarrow> unat (of_nat n :: 8 word) = n"
  by (simp add: unat_of_nat)

lemma decode_one_byte:
  assumes "cp < 0x80"
  shows "utf8_decoder 0 0 0x80 0xBF (utf8_bytes cp @ rest) = cp # utf8_decoder 0 0 0x80 0xBF rest"
proof -
  have b: "unat (of_nat cp :: 8 word) = cp" using assms by (simp add: unat_byte)
  show ?thesis using assms by (simp add: utf8_bytes_def utf8_decoder.simps b)
qed

lemma decode_two_bytes:
  assumes "0x80 \<le> cp" "cp < 0x800"
  shows "utf8_decoder 0 0 0x80 0xBF (utf8_bytes cp @ rest) = cp # utf8_decoder 0 0 0x80 0xBF rest"
proof -
  define b1 :: "8 word" where "b1 = of_nat (0xC0 + cp div 64)"
  define b2 :: "8 word" where "b2 = of_nat (0x80 + cp mod 64)"
  have u1: "unat b1 = 0xC0 + cp div 64" unfolding b1_def using assms by (intro unat_byte) simp
  have u2: "unat b2 = 0x80 + cp mod 64" unfolding b2_def by (intro unat_byte) simp
  have bytes: "utf8_bytes cp = [b1, b2]"
    using assms by (simp add: utf8_bytes_def b1_def b2_def del: of_nat_add)
  have d: "2 \<le> cp div 64" "cp div 64 < 32" using assms by simp_all
  have r1: "0xC2 \<le> unat b1" "unat b1 \<le> 0xDF" "unat b1 mod 32 = cp div 64"
    unfolding u1 using d by (simp_all add: lead2_mod)
  have r2: "0x80 \<le> unat b2" "unat b2 \<le> 0xBF" "unat b2 mod 64 = cp mod 64"
    unfolding u2 by (simp_all add: continuation_mod)
  have s1: "utf8_decoder 0 0 0x80 0xBF (b1 # b2 # rest) = utf8_decoder (cp div 64) 1 0x80 0xBF (b2 # rest)"
    using r1 by (subst utf8_decoder.simps) simp
  have s2: "utf8_decoder (cp div 64) 1 0x80 0xBF (b2 # rest) = (cp div 64 * 64 + cp mod 64) # utf8_decoder 0 0 0x80 0xBF rest"
    using r2 by (subst utf8_decoder.simps) simp
  have cp: "cp div 64 * 64 + cp mod 64 = cp" by simp
  show ?thesis unfolding bytes by (simp only: append_Cons append_Nil s1 s2 cp)
qed

lemma decode_three_bytes:
  assumes "0x800 \<le> cp" "cp < 0x10000" "\<not> (0xD800 \<le> cp \<and> cp \<le> 0xDFFF)"
  shows "utf8_decoder 0 0 0x80 0xBF (utf8_bytes cp @ rest) = cp # utf8_decoder 0 0 0x80 0xBF rest"
proof -
  define b1 :: "8 word" where "b1 = of_nat (0xE0 + cp div 4096)"
  define b2 :: "8 word" where "b2 = of_nat (0x80 + cp div 64 mod 64)"
  define b3 :: "8 word" where "b3 = of_nat (0x80 + cp mod 64)"
  have u1: "unat b1 = 0xE0 + cp div 4096" unfolding b1_def using assms by (intro unat_byte) simp
  have u2: "unat b2 = 0x80 + cp div 64 mod 64" unfolding b2_def by (intro unat_byte) simp
  have u3: "unat b3 = 0x80 + cp mod 64" unfolding b3_def by (intro unat_byte) simp
  have bytes: "utf8_bytes cp = [b1, b2, b3]"
    using assms by (simp add: utf8_bytes_def b1_def b2_def b3_def del: of_nat_add)
  define lo :: nat where "lo = (if unat b1 = 0xE0 then 0xA0 else 0x80)"
  define hi :: nat where "hi = (if unat b1 = 0xED then 0x9F else 0xBF)"
  have d: "cp div 4096 < 16" using assms by simp
  have r1: "\<not> unat b1 \<le> 0x7F" "\<not> (0xC2 \<le> unat b1 \<and> unat b1 \<le> 0xDF)"
    "0xE0 \<le> unat b1" "unat b1 \<le> 0xEF" "unat b1 mod 16 = cp div 4096"
    unfolding u1 using d by (simp_all add: lead3_mod)
  have lt: "cp < 55296 \<or> 57343 < cp" using assms by linarith
  have e0: "cp div 4096 = 0 \<Longrightarrow> 32 \<le> cp div 64 mod 64"
    using assms by (intro after_E0) simp_all
  have ed: "cp div 4096 = 13 \<Longrightarrow> cp div 64 mod 64 < 32"
  proof -
    assume a: "cp div 4096 = 13"
    then have "cp div 4096 < 14" by simp
    then have "cp < 57344" by simp
    with lt have "cp < 55296" by simp
    then show ?thesis using a by (rule after_ED)
  qed
  have r2a: "lo \<le> unat b2" unfolding u1 u2 lo_def using e0 by simp
  have m: "cp div 64 mod 64 \<le> 63" using mod_less_divisor [of 64 "cp div 64"] by simp
  have r2b: "unat b2 \<le> hi"
  proof (cases "cp div 4096 = 13")
    case True
    with ed have "cp div 64 mod 64 < 32" by simp
    with True show ?thesis unfolding u1 u2 hi_def by simp
  next
    case False
    with m show ?thesis unfolding u1 u2 hi_def by simp
  qed
  have r2c: "unat b2 mod 64 = cp div 64 mod 64" unfolding u2 by (rule continuation_mod)
  note r2 = r2a r2b r2c
  have r3: "0x80 \<le> unat b3" "unat b3 \<le> 0xBF" "unat b3 mod 64 = cp mod 64"
    unfolding u3 by (simp_all add: continuation_mod)
  have cp: "(cp div 4096 * 64 + cp div 64 mod 64) * 64 + cp mod 64 = cp"
    by (rule join_three)
  have s1: "utf8_decoder 0 0 0x80 0xBF (b1 # b2 # b3 # rest)
              = utf8_decoder (cp div 4096) 2 lo hi (b2 # b3 # rest)"
    using r1 by (subst utf8_decoder.simps) (simp add: lo_def hi_def)
  have s2: "utf8_decoder (cp div 4096) 2 lo hi (b2 # b3 # rest)
              = utf8_decoder (cp div 4096 * 64 + cp div 64 mod 64) 1 0x80 0xBF (b3 # rest)"
    using r2 by (subst utf8_decoder.simps) simp
  have s3: "utf8_decoder (cp div 4096 * 64 + cp div 64 mod 64) 1 0x80 0xBF (b3 # rest)
              = cp # utf8_decoder 0 0 0x80 0xBF rest"
    using r3 cp by (subst utf8_decoder.simps) simp
  show ?thesis unfolding bytes by (simp only: append_Cons append_Nil s1 s2 s3)
qed

lemma decode_four_bytes:
  assumes "0x10000 \<le> cp" "cp < 0x110000"
  shows "utf8_decoder 0 0 0x80 0xBF (utf8_bytes cp @ rest) = cp # utf8_decoder 0 0 0x80 0xBF rest"
proof -
  define b1 :: "8 word" where "b1 = of_nat (0xF0 + cp div 262144)"
  define b2 :: "8 word" where "b2 = of_nat (0x80 + cp div 4096 mod 64)"
  define b3 :: "8 word" where "b3 = of_nat (0x80 + cp div 64 mod 64)"
  define b4 :: "8 word" where "b4 = of_nat (0x80 + cp mod 64)"
  have u1: "unat b1 = 0xF0 + cp div 262144" unfolding b1_def using assms by (intro unat_byte) simp
  have u2: "unat b2 = 0x80 + cp div 4096 mod 64" unfolding b2_def by (intro unat_byte) simp
  have u3: "unat b3 = 0x80 + cp div 64 mod 64" unfolding b3_def by (intro unat_byte) simp
  have u4: "unat b4 = 0x80 + cp mod 64" unfolding b4_def by (intro unat_byte) simp
  have bytes: "utf8_bytes cp = [b1, b2, b3, b4]"
    using assms by (simp add: utf8_bytes_def b1_def b2_def b3_def b4_def del: of_nat_add)
  have d: "cp div 262144 < 5" using assms by simp
  define lo :: nat where "lo = (if unat b1 = 0xF0 then 0x90 else 0x80)"
  define hi :: nat where "hi = (if unat b1 = 0xF4 then 0x8F else 0xBF)"
  have r1: "\<not> unat b1 \<le> 0x7F" "\<not> (0xC2 \<le> unat b1 \<and> unat b1 \<le> 0xDF)"
    "\<not> (0xE0 \<le> unat b1 \<and> unat b1 \<le> 0xEF)"
    "0xF0 \<le> unat b1" "unat b1 \<le> 0xF4" "unat b1 mod 8 = cp div 262144"
    unfolding u1 using d by (simp_all add: lead4_mod)
  have f0: "cp div 262144 = 0 \<Longrightarrow> 16 \<le> cp div 4096 mod 64"
    using assms by (intro after_F0) simp_all
  have f4: "cp div 262144 = 4 \<Longrightarrow> cp div 4096 mod 64 < 16"
    using assms by (intro after_F4) simp_all
  have r2a: "lo \<le> unat b2" unfolding u1 u2 lo_def using f0 by simp
  have m: "cp div 4096 mod 64 \<le> 63" using mod_less_divisor [of 64 "cp div 4096"] by simp
  have r2b: "unat b2 \<le> hi"
  proof (cases "cp div 262144 = 4")
    case True
    with f4 have "cp div 4096 mod 64 < 16" by simp
    with True show ?thesis unfolding u1 u2 hi_def by simp
  next
    case False
    with m show ?thesis unfolding u1 u2 hi_def by simp
  qed
  have r2c: "unat b2 mod 64 = cp div 4096 mod 64" unfolding u2 by (rule continuation_mod)
  note r2 = r2a r2b r2c
  have r3: "0x80 \<le> unat b3" "unat b3 \<le> 0xBF" "unat b3 mod 64 = cp div 64 mod 64"
    unfolding u3 by (simp_all add: continuation_mod)
  have r4: "0x80 \<le> unat b4" "unat b4 \<le> 0xBF" "unat b4 mod 64 = cp mod 64"
    unfolding u4 by (simp_all add: continuation_mod)
  have cp: "((cp div 262144 * 64 + cp div 4096 mod 64) * 64 + cp div 64 mod 64) * 64 + cp mod 64 = cp"
    by (rule join_four)
  have s1: "utf8_decoder 0 0 0x80 0xBF (b1 # b2 # b3 # b4 # rest)
              = utf8_decoder (cp div 262144) 3 lo hi (b2 # b3 # b4 # rest)"
    using r1 by (subst utf8_decoder.simps) (simp add: lo_def hi_def)
  have s2: "utf8_decoder (cp div 262144) 3 lo hi (b2 # b3 # b4 # rest)
              = utf8_decoder (cp div 262144 * 64 + cp div 4096 mod 64) 2 0x80 0xBF (b3 # b4 # rest)"
    using r2 by (subst utf8_decoder.simps) simp
  have s3: "utf8_decoder (cp div 262144 * 64 + cp div 4096 mod 64) 2 0x80 0xBF (b3 # b4 # rest)
              = utf8_decoder ((cp div 262144 * 64 + cp div 4096 mod 64) * 64 + cp div 64 mod 64) 1
                  0x80 0xBF (b4 # rest)"
    using r3 by (subst utf8_decoder.simps) simp
  have s4: "utf8_decoder ((cp div 262144 * 64 + cp div 4096 mod 64) * 64 + cp div 64 mod 64) 1
                0x80 0xBF (b4 # rest) = cp # utf8_decoder 0 0 0x80 0xBF rest"
    using r4 cp by (subst utf8_decoder.simps) simp
  show ?thesis unfolding bytes by (simp only: append_Cons append_Nil s1 s2 s3 s4)
qed

lemma decode_scalar:
  assumes "scalar_value cp"
  shows "utf8_decoder 0 0 0x80 0xBF (utf8_bytes cp @ rest) = cp # utf8_decoder 0 0 0x80 0xBF rest"
proof -
  consider "cp < 0x80" | "0x80 \<le> cp" "cp < 0x800" | "0x800 \<le> cp" "cp < 0x10000" | "0x10000 \<le> cp"
    by linarith
  then show ?thesis
  proof cases
    case 1 then show ?thesis by (rule decode_one_byte)
  next
    case 2 then show ?thesis by (rule decode_two_bytes)
  next
    case 3 with assms show ?thesis by (intro decode_three_bytes) (simp_all add: scalar_value_def)
  next
    case 4 with assms show ?thesis by (intro decode_four_bytes) (simp_all add: scalar_value_def)
  qed
qed

lemma unat_unit: "n < 65536 \<Longrightarrow> unat (of_nat n :: 16 word) = n"
  by (simp add: unat_of_nat)

lemma plain_unit:
  assumes "\<not> is_high_surrogate u" "\<not> is_low_surrogate u"
  shows "scalar_value (unat u)" "utf16_units (unat u) = [u]"
proof -
  have lt: "unat u < 65536" using unsigned_less [of u, where 'a = nat] by simp
  from assms lt show "scalar_value (unat u)"
    by (auto simp: scalar_value_def is_high_surrogate_def is_low_surrogate_def)
  from lt show "utf16_units (unat u) = [u]"
    by (simp add: utf16_units_def)
qed

lemma paired_units:
  assumes "is_high_surrogate u" "is_low_surrogate v"
  shows "scalar_value (surrogate_pair u v)" "utf16_units (surrogate_pair u v) = [u, v]"
proof -
  define h where "h = unat u - 0xD800"
  define l where "l = unat v - 0xDC00"
  have h: "unat u = 0xD800 + h" "h < 0x400"
    using assms(1) by (auto simp add: h_def is_high_surrogate_def)
  have l: "unat v = 0xDC00 + l" "l < 0x400"
    using assms(2) by (auto simp add: l_def is_low_surrogate_def)
  have sp: "surrogate_pair u v = 0x10000 + h * 0x400 + l"
    by (simp add: surrogate_pair_def h_def l_def)
  have "h * 0x400 \<le> 0x3FF * 0x400" using h(2) by simp
  then have bound: "h * 0x400 + l < 0x100000" using l(2) by simp
  show "scalar_value (surrogate_pair u v)"
    unfolding sp scalar_value_def using bound by simp
  have dv: "(h * 0x400 + l) div 0x400 = h" using l(2) by simp
  have md: "(h * 0x400 + l) mod 0x400 = l" using l(2) by simp
  have "of_nat (0xD800 + h) = u" "of_nat (0xDC00 + l) = v"
    unfolding h(1) [symmetric] l(1) [symmetric] by simp_all
  then show "utf16_units (surrogate_pair u v) = [u, v]"
    unfolding sp utf16_units_def using dv md by (simp del: of_nat_add)
qed

lemma decoder_Nil: "utf8_decoder 0 0 0x80 0xBF [] = []"
  by (simp add: utf8_decoder.simps)

lemma replacement_character:
  "scalar_value 0xFFFD" "utf16_units 0xFFFD = [0xFFFD]"
  "\<not> is_high_surrogate 0xFFFD" "\<not> is_low_surrogate 0xFFFD"
  by (simp_all add: scalar_value_def utf16_units_def is_high_surrogate_def is_low_surrogate_def)

lemma surrogates_disjoint: "is_high_surrogate u \<Longrightarrow> \<not> is_low_surrogate u"
  by (simp add: is_high_surrogate_def is_low_surrogate_def)

lemma utf8_decode_encode: "utf8_decode (utf8_encode s) = toWellFormed s"
proof (induction s rule: utf8_encode.induct)
  case 1
  then show ?case by (simp add: utf8_decode_def decoder_Nil)
next
  case (2 u)
  show ?case
  proof (cases "is_high_surrogate u \<or> is_low_surrogate u")
    case True
    with decode_scalar [OF replacement_character(1), of "[]"] replacement_character(2)
    show ?thesis by (simp add: utf8_decode_def decoder_Nil)
  next
    case False
    then have u: "\<not> is_high_surrogate u" "\<not> is_low_surrogate u" by simp_all
    from decode_scalar [OF plain_unit(1) [OF u], of "[]"] plain_unit(2) [OF u] u
    show ?thesis by (simp add: utf8_decode_def decoder_Nil)
  qed
next
  case (3 u v vs)
  consider (pair) "is_high_surrogate u" "is_low_surrogate v"
    | (lone) "\<not> (is_high_surrogate u \<and> is_low_surrogate v)" "is_high_surrogate u \<or> is_low_surrogate u"
    | (plain) "\<not> is_high_surrogate u" "\<not> is_low_surrogate u"
    by blast
  then show ?case
  proof cases
    case pair
    with "3.IH"(1) have ih: "utf8_decode (utf8_encode vs) = toWellFormed vs" by simp
    from decode_scalar [OF paired_units(1) [OF pair], of "utf8_encode vs"]
      paired_units(2) [OF pair] ih pair
    show ?thesis by (simp add: utf8_decode_def)
  next
    case lone
    with "3.IH"(2) have ih: "utf8_decode (utf8_encode (v # vs)) = toWellFormed (v # vs)" by simp
    from decode_scalar [OF replacement_character(1), of "utf8_encode (v # vs)"]
      replacement_character(2) ih lone
    show ?thesis by (auto simp add: utf8_decode_def)
  next
    case plain
    with "3.IH"(3) have ih: "utf8_decode (utf8_encode (v # vs)) = toWellFormed (v # vs)" by simp
    from decode_scalar [OF plain_unit(1) [OF plain], of "utf8_encode (v # vs)"]
      plain_unit(2) [OF plain] ih plain
    show ?thesis by (simp add: utf8_decode_def)
  qed
qed

lemma toWellFormed_fixed: "toWellFormed s = s \<longleftrightarrow> isWellFormed s"
proof (induction s rule: isWellFormed.induct)
  case 1
  then show ?case by simp
next
  case (2 u)
  then show ?case using replacement_character(3,4) by auto
next
  case (3 u v vs)
  then show ?case using replacement_character(3,4) surrogates_disjoint [of u] by auto
qed

subsection \<open>decrypt after encrypt\<close>

lemma length_randomBytes: "length (fst (randomBytes n r)) = n"
  by (simp add: randomBytes_def)

lemma encrypt_envelope:
  assumes "length secretKey = 32"
    and "cipher lib ALGORITHM secretKey (fst (randomBytes 16 r)) (utf8_encode text) = Inr c"
  shows "encrypt lib text secretKey r
         = (Inr (toString_hex (fst (randomBytes 16 r)) @ [colon] @ toString_hex c),
            snd (randomBytes 16 r))"
  using assms
  by (cases "randomBytes 16 r") (simp add: encrypt_def KEY_LENGTH_def IV_LENGTH_def)

lemma decrypt_envelope:
  assumes "length secretKey = 32" and "length iv = 16"
    and "decipher lib ALGORITHM secretKey iv c = Inr data"
  shows "decrypt lib (toString_hex iv @ [colon] @ toString_hex c) secretKey
         = Inr (utf8_decode data)"
  using assms
  by (simp add: decrypt_def decrypt_try_def KEY_LENGTH_def IV_LENGTH_def Let_def
      split_envelope Buffer_from_hex_toString_hex del: append.simps)

lemma decrypt_encrypt_decodes:
  assumes key: "length secretKey = 32"
    and inverts: "\<And>iv data. length iv = 16 \<Longrightarrow>
           \<exists>c. cipher lib ALGORITHM secretKey iv data = Inr c
             \<and> decipher lib ALGORITHM secretKey iv c = Inr data"
  shows "\<exists>envelope r'. encrypt lib text secretKey r = (Inr envelope, r')
           \<and> decrypt lib envelope secretKey = Inr (toWellFormed text)"
proof -
  let ?iv = "fst (randomBytes 16 r)"
  have iv: "length ?iv = 16" by (rule length_randomBytes)
  from inverts [OF iv, of "utf8_encode text"]
  obtain c where c: "cipher lib ALGORITHM secretKey ?iv (utf8_encode text) = Inr c"
    "decipher lib ALGORITHM secretKey ?iv c = Inr (utf8_encode text)"
    by blast
  from encrypt_envelope [OF key c(1)] decrypt_envelope [OF key iv c(2)]
  show ?thesis unfolding utf8_decode_encode by blast
qed

text \<open>
  Claim C1, as stated, fails: \<open>encrypt\<close> writes the text as UTF-8, which has no
  encoding for a surrogate that is not part of a pair. Such a code unit is written as
  U+FFFD, and \<open>decrypt\<close> returns U+FFFD in its place. Here the text is the single code
  unit D800.
\<close>

theorem decrypt_encrypt_lone_surrogate:
  "decrypt_encrypt stub_crypto [0xD800] example_key counting_random = Inr [0xFFFD]
   \<and> decrypt_encrypt stub_crypto [0xD800] example_key counting_random \<noteq> Inr [0xD800]"
proof -
  from decrypt_encrypt_decodes [of example_key stub_crypto "[0xD800]" counting_random,
      OF length_example_key stub_crypto_inverts]
  have "decrypt_encrypt stub_crypto [0xD800] example_key counting_random
        = Inr (toWellFormed [0xD800])"
    by (auto simp add: decrypt_encrypt_def)
  then show ?thesis by (simp add: is_high_surrogate_def)
qed

text \<open>
  Claim C1, amended. For every key of 32 bytes and every text, \<open>encrypt\<close> returns an
  envelope, and \<open>decrypt\<close> of that envelope with the same key returns the text with
  every surrogate that is not part of a pair replaced by U+FFFD: it returns the text
  itself exactly when the text is well formed. This is given that the decipher of the
  crypto module inverts its cipher under that key for every IV of 16 bytes.
\<close>

theorem encrypt_decrypt_roundtrip:
  assumes "length secretKey = 32"
    and "\<And>iv data. length iv = 16 \<Longrightarrow>
           \<exists>c. cipher lib ALGORITHM secretKey iv data = Inr c
             \<and> decipher lib ALGORITHM secretKey iv c = Inr data"
  shows "\<exists>envelope r'. encrypt lib text secretKey r = (Inr envelope, r')
           \<and> decrypt lib envelope secretKey = Inr (toWellFormed text)
           \<and> (decrypt lib envelope secretKey = Inr text \<longleftrightarrow> isWellFormed text)"
  using decrypt_encrypt_decodes [of secretKey lib "text" r, OF assms]
    toWellFormed_fixed [of "text"]
  by auto

text \<open>An instance: the text \<open>secret\<close>.\<close>

theorem encrypt_decrypt_roundtrip_witness:
  "length example_key = 32
   \<and> isWellFormed (js ''secret'')
   \<and> (\<forall>iv data. \<exists>c. cipher stub_crypto ALGORITHM example_key iv data = Inr c
          \<and> decipher stub_crypto ALGORITHM example_key iv c = Inr data)
   \<and> (\<exists>envelope r'.
          encrypt stub_crypto (js ''secret'') example_key counting_random = (Inr envelope, r')
          \<and> decrypt stub_crypto envelope example_key = Inr (js ''secret''))"
proof -
  have h2: "isWellFormed (js ''secret'')"
    by (simp add: js_def is_high_surrogate_def is_low_surrogate_def)
  have h3: "\<exists>c. cipher stub_crypto ALGORITHM example_key iv data = Inr c
          \<and> decipher stub_crypto ALGORITHM example_key iv c = Inr data" for iv data
    by (rule stub_crypto_inverts)
  from encrypt_decrypt_roundtrip [of example_key stub_crypto "js ''secret''" counting_random,
      OF length_example_key h3] length_example_key h2 h3
  show ?thesis by blast
qed


subsection \<open>Two calls of encrypt\<close>







section \<open>Properties of the SSH service\<close>

lemma resolve_network_io: "network_io (resolve c) = network_io c"
  by (simp add: resolve_def)

lemma reject_network_io: "network_io (reject e c) = network_io c"
  by (simp add: reject_def)

lemma on_event_network_io: "network_io (on_event h ev c) = network_io c"
  by (cases ev) (simp_all add: resolve_network_io reject_network_io)

lemma fold_on_event_network_io: "network_io (fold (on_event h) events c) = network_io c"
  by (induction events arbitrary: c) (simp_all add: on_event_network_io)

text \<open>
  Claim C2, as stated, fails: \<open>connect\<close> validates nothing. It hands the empty host to
  the SSH library as it is, and when the library connects (ssh2 takes \<open>localhost\<close> for an
  empty host) the promise resolves after network I/O.
\<close>

theorem connect_empty_host_connects:
  "host empty_host_params = []
   \<and> cfg_host (config empty_host_params) = []
   \<and> settled (connect local_ssh2 empty_host_params) = Resolved
   \<and> network_io (connect local_ssh2 empty_host_params)"
  by (simp add: connect_def config_def local_ssh2_def empty_host_params_def resolve_def)

text \<open>
  Claim C2, amended. \<open>connect\<close> performs no validation of its own: it passes the
  parameters, the host unchanged, to \<open>conn.connect\<close> of the SSH library. When that call
  throws synchronously, the promise is rejected with the error thrown and there is no
  network I/O; otherwise the connection is started, whatever the parameters are.
\<close>

theorem connect_delegates_validation:
  "cfg_host (config params) = host params
   \<and> (\<forall>e. conn_connect (config params) = Throws e \<longrightarrow>
          settled (connect conn_connect params) = Rejected e
          \<and> \<not> network_io (connect conn_connect params))
   \<and> (\<forall>events. conn_connect (config params) = Connecting events \<longrightarrow>
          network_io (connect conn_connect params))"
  by (simp add: connect_def config_def reject_def fold_on_event_network_io)

text \<open>An instance: an SSH library that throws on an empty host.\<close>

theorem connect_delegates_validation_witness:
  "strict_ssh2 (config empty_host_params) = Throws (Error (js ''Invalid host''))
   \<and> settled (connect strict_ssh2 empty_host_params) = Rejected (Error (js ''Invalid host''))
   \<and> \<not> network_io (connect strict_ssh2 empty_host_params)"
proof -
  have h: "strict_ssh2 (config empty_host_params) = Throws (Error (js ''Invalid host''))"
    by (simp add: strict_ssh2_def config_def empty_host_params_def)
  from connect_delegates_validation [of empty_host_params strict_ssh2] h
  show ?thesis by blast
qed


section \<open>Failures and the caller\<close>

subsection \<open>The promise of connect\<close>

lemma reject_pending: "settled c = Pending \<Longrightarrow> settled (reject e c) = Rejected e"
  by (simp add: reject_def)






subsection \<open>The instances\<close>



subsection \<open>Which failures reach the caller\<close>




end
